theory Spec2Isabelle
  imports Main "HOL-Library.AList" "HOL-Library.Char_ord" "HOL-Library.List_Lexorder"
begin

section \<open>Layered configuration loading of evosuite.agent_os.config\<close>

text \<open>
  A shallow embedding of \<^verbatim>\<open>src/evosuite/agent_os/config.py\<close>.

  Conventions of the model.
  \<^item> A Python \<^verbatim>\<open>str\<close> is a \<^typ>\<open>string\<close>; each \<^typ>\<open>char\<close> stands for the code point
    of the same number (U+0000 to U+00FF). Strings with code points above U+00FF are
    not represented.
  \<^item> A configuration value is a tree (\<open>json\<close> below): what \<^verbatim>\<open>json.loads\<close> returns.
    A \<^verbatim>\<open>dict\<close> is an association list in insertion order whose keys are distinct.
    Values that only YAML can produce (dates, non-string keys, shared nodes made by
    anchors) are not represented.
  \<^item> The in-place mutation of \<^verbatim>\<open>base\<close> by \<^verbatim>\<open>_deep_merge\<close> is the returned value
    of \<open>deep_merge\<close>; on trees the two agree, since no node of \<^verbatim>\<open>incoming\<close> that
    was copied by reference into \<^verbatim>\<open>base\<close> is visited again by the same call.
  \<^item> Every exception of the source is a value \<open>Inl e\<close> of the result.
  \<^item> The filesystem, the two parsers, the environment table and the platform are the
    fields of a record \<open>host\<close>.
\<close>

subsection \<open>Values and errors\<close>

datatype json =
    JNull
  | JBool bool
  | JInt int
  | JFloat string
  | JStr string
  | JList "json list"
  | JDict "(string \<times> json) list"

text \<open>
  \<open>JFloat r\<close> is the float whose JSON text (\<^verbatim>\<open>float.__repr__\<close>, or \<^verbatim>\<open>NaN\<close>,
  \<^verbatim>\<open>Infinity\<close>, \<^verbatim>\<open>-Infinity\<close>) is \<open>r\<close>: the code never computes with a float, it only
  stores, replaces, tests for truth and serialises it.
\<close>

datatype error = AttributeError | TypeError | ValueError | KeyError

definition bind :: "error + 'a \<Rightarrow> ('a \<Rightarrow> error + 'b) \<Rightarrow> error + 'b" where
  "bind r f = (case r of Inl e \<Rightarrow> Inl e | Inr x \<Rightarrow> f x)"

fun is_dict :: "json \<Rightarrow> bool" where
  "is_dict (JDict d) = True"
| "is_dict _ = False"

fun is_list :: "json \<Rightarrow> bool" where
  "is_list (JList xs) = True"
| "is_list _ = False"

fun items :: "json \<Rightarrow> (string \<times> json) list" where
  "items (JDict d) = d"
| "items _ = []"

fun elems :: "json \<Rightarrow> json list" where
  "elems (JList xs) = xs"
| "elems _ = []"

text \<open>Python's truth value of a configuration value (\<^verbatim>\<open>if cfg:\<close>, \<^verbatim>\<open>x or {}\<close>).\<close>

fun truthy :: "json \<Rightarrow> bool" where
  "truthy JNull = False"
| "truthy (JBool b) = b"
| "truthy (JInt i) = (i \<noteq> 0)"
| "truthy (JFloat r) = (r \<noteq> ''0.0'' \<and> r \<noteq> ''-0.0'')"
| "truthy (JStr s) = (s \<noteq> [])"
| "truthy (JList xs) = (xs \<noteq> [])"
| "truthy (JDict d) = (d \<noteq> [])"

subsection \<open>Strings\<close>

definition code :: "char \<Rightarrow> nat" where
  "code c = of_char c"

text \<open>
  \<^verbatim>\<open>str.isdigit\<close> on U+0000 to U+00FF: the ASCII digits and the superscripts
  U+00B2, U+00B3, U+00B9, which have the Unicode property Digit but are not decimal.
\<close>

definition isdecimal_char :: "char \<Rightarrow> bool" where
  "isdecimal_char c = (48 \<le> code c \<and> code c \<le> 57)"

definition isdigit_char :: "char \<Rightarrow> bool" where
  "isdigit_char c = (isdecimal_char c \<or> code c = 178 \<or> code c = 179 \<or> code c = 185)"

definition isdigit :: "string \<Rightarrow> bool" where
  "isdigit s = (s \<noteq> [] \<and> list_all isdigit_char s)"

text \<open>
  \<^verbatim>\<open>int(value)\<close> on the strings the code passes to it, those with \<^verbatim>\<open>value.isdigit()\<close>:
  the decimal value when every character is a decimal digit, \<^verbatim>\<open>ValueError\<close> otherwise.
\<close>

definition py_int :: "string \<Rightarrow> error + int" where
  "py_int s =
     (if s \<noteq> [] \<and> list_all isdecimal_char s
      then Inr (foldl (\<lambda>a c. 10 * a + (int (code c) - 48)) 0 s)
      else Inl ValueError)"

text \<open>\<^verbatim>\<open>str.lower\<close> on U+0000 to U+00FF: A-Z and the Latin-1 capitals move up by 32.\<close>

definition lower_char :: "char \<Rightarrow> char" where
  "lower_char c =
     (if (65 \<le> code c \<and> code c \<le> 90) \<or> (192 \<le> code c \<and> code c \<le> 214) \<or>
         (216 \<le> code c \<and> code c \<le> 222)
      then char_of (code c + 32) else c)"

definition lower :: "string \<Rightarrow> string" where
  "lower s = map lower_char s"

definition startswith :: "string \<Rightarrow> string \<Rightarrow> bool" where
  "startswith s p = (take (length p) s = p)"

text \<open>\<^verbatim>\<open>s.split("__")\<close>: leftmost, non-overlapping occurrences; \<open>acc\<close> is the current piece.\<close>

fun split_dunder :: "string \<Rightarrow> string \<Rightarrow> string list" where
  "split_dunder acc [] = [acc]"
| "split_dunder acc [c] = [acc @ [c]]"
| "split_dunder acc (c # d # rest) =
     (if c = CHR ''_'' \<and> d = CHR ''_'' then acc # split_dunder [] rest
      else split_dunder (acc @ [c]) (d # rest))"

definition split :: "string \<Rightarrow> string list" where
  "split s = split_dunder [] s"

fun join :: "string \<Rightarrow> string list \<Rightarrow> string" where
  "join sep [] = []"
| "join sep [x] = x"
| "join sep (x # y # ys) = x @ sep @ join sep (y # ys)"

subsection \<open>The canonical encoding: \<^verbatim>\<open>json.dumps(item, sort_keys=True)\<close>\<close>

definition hexdigit :: "nat \<Rightarrow> char" where
  "hexdigit n = ''0123456789abcdef'' ! (n mod 16)"

fun str_nat :: "nat \<Rightarrow> string" where
  "str_nat n = (if n < 10 then [hexdigit n] else str_nat (n div 10) @ [hexdigit (n mod 10)])"

definition str_int :: "int \<Rightarrow> string" where
  "str_int i = (if i < 0 then CHR ''-'' # str_nat (nat (- i)) else str_nat (nat i))"

text \<open>
  The escapes of \<^verbatim>\<open>ensure_ascii=True\<close>: the quote (34) and the backslash (92) get a
  backslash, the five named control characters their letter, and every other character
  outside U+0020 to U+007E the form \<^verbatim>\<open>\u00xx\<close>.
\<close>

definition escape_char :: "char \<Rightarrow> string" where
  "escape_char c =
     (if code c = 34 then [char_of (92::nat), char_of (34::nat)]
      else if code c = 92 then [char_of (92::nat), char_of (92::nat)]
      else if code c = 10 then [char_of (92::nat), CHR ''n'']
      else if code c = 13 then [char_of (92::nat), CHR ''r'']
      else if code c = 9 then [char_of (92::nat), CHR ''t'']
      else if code c = 8 then [char_of (92::nat), CHR ''b'']
      else if code c = 12 then [char_of (92::nat), CHR ''f'']
      else if code c < 32 \<or> 126 < code c
        then [char_of (92::nat), CHR ''u'', CHR ''0'', CHR ''0'',
              hexdigit (code c div 16), hexdigit (code c mod 16)]
      else [c])"

definition encode_str :: "string \<Rightarrow> string" where
  "encode_str s = [char_of (34::nat)] @ concat (map escape_char s) @ [char_of (34::nat)]"

fun json_dumps :: "json \<Rightarrow> string" where
  "json_dumps JNull = ''null''"
| "json_dumps (JBool b) = (if b then ''true'' else ''false'')"
| "json_dumps (JInt i) = str_int i"
| "json_dumps (JFloat r) = r"
| "json_dumps (JStr s) = encode_str s"
| "json_dumps (JList xs) = ''['' @ join '', '' (map json_dumps xs) @ '']''"
| "json_dumps (JDict d) =
     ''{'' @ join '', ''
        (map (\<lambda>kv. encode_str (fst kv) @ '': '' @ snd kv)
           (sort_key fst (map (\<lambda>kv. (fst kv, json_dumps (snd kv))) d))) @ ''}''"

subsection \<open>\<^verbatim>\<open>_deep_merge\<close>\<close>

text \<open>
  The inner loop of the list branch: \<open>existing\<close> is the set of encodings, \<open>bs\<close> the
  list \<^verbatim>\<open>base[k]\<close> being appended to.
\<close>

fun append_new :: "json list \<Rightarrow> string set \<Rightarrow> json list \<Rightarrow> json list" where
  "append_new bs existing [] = bs"
| "append_new bs existing (item # rest) =
     (let encoded = json_dumps item in
      if encoded \<notin> existing
      then append_new (bs @ [item]) (insert encoded existing) rest
      else append_new bs existing rest)"

definition extend_unique :: "json list \<Rightarrow> json list \<Rightarrow> json list" where
  "extend_unique bl vl = append_new bl (set (map json_dumps bl)) vl"

function deep_merge ::
  "(string \<times> json) list \<Rightarrow> (string \<times> json) list \<Rightarrow> (string \<times> json) list" where
  "deep_merge base [] = base"
| "deep_merge base ((k, v) # rest) =
     (case map_of base k of
        None \<Rightarrow> deep_merge (base @ [(k, v)]) rest
      | Some b \<Rightarrow>
          if is_dict b \<and> is_dict v then
            deep_merge (AList.update k (JDict (deep_merge (items b) (items v))) base) rest
          else if is_list b \<and> is_list v then
            deep_merge (AList.update k (JList (extend_unique (elems b) (elems v))) base) rest
          else deep_merge (AList.update k v base) rest)"
  by pat_completeness auto
termination
proof (relation "measure (\<lambda>(base, incoming). size_list (size_prod (\<lambda>_. 0) size) incoming)")
  fix base :: "(string \<times> json) list" and k v rest b
  assume "is_dict b \<and> is_dict v"
  then have "size_list (size_prod (\<lambda>_. 0) size) (items v) < size v"
    by (cases v) simp_all
  then show "((items b, items v), (base, (k, v) # rest))
      \<in> measure (\<lambda>(base, incoming). size_list (size_prod (\<lambda>_. 0) size) incoming)"
    by simp
qed simp_all

subsection \<open>The host: filesystem, parsers, environment, platform\<close>

type_synonym path = string

definition joinpath :: "path \<Rightarrow> string \<Rightarrow> path" where
  "joinpath p name = p @ ''/'' @ name"

definition path_name :: "path \<Rightarrow> string" where
  "path_name p = rev (takeWhile (\<lambda>c. c \<noteq> CHR ''/'') (rev p))"

text \<open>\<^verbatim>\<open>PurePath.suffix\<close>: from the last dot of the name, unless it is first or last.\<close>

definition suffix :: "path \<Rightarrow> string" where
  "suffix p =
     (let name = path_name p;
          after = length (takeWhile (\<lambda>c. c \<noteq> CHR ''.'') (rev name));
          i = length name - 1 - after
      in if CHR ''.'' \<in> set name \<and> 0 < i \<and> i < length name - 1 then drop i name else [])"

datatype platform = Windows | Darwin | Other

record host =
  path_exists :: "path \<Rightarrow> bool"
  read_text :: "path \<Rightarrow> string + string"
  yaml_safe_load :: "(string \<Rightarrow> string + json) option"
  json_loads :: "string \<Rightarrow> string + json"
  environ :: "(string \<times> string) list"
  os_platform :: platform
  home :: path
  package_dir :: path

text \<open>
  \<open>read_text\<close> and the parsers return \<open>Inl msg\<close> where the Python raises an exception
  whose text is \<open>msg\<close>; \<open>yaml_safe_load\<close> is \<open>None\<close> when the import of \<^verbatim>\<open>yaml\<close> failed;
  \<open>environ\<close> lists \<^verbatim>\<open>os.environ.items()\<close> in enumeration order; \<open>package_dir\<close> is
  \<^verbatim>\<open>Path(__file__).parent\<close>.
\<close>

definition platform_user_config_root :: "host \<Rightarrow> path" where
  "platform_user_config_root h =
     (case os_platform h of
        Windows \<Rightarrow>
          joinpath (joinpath
            (case map_of (environ h) ''APPDATA'' of
               Some a \<Rightarrow> a
             | None \<Rightarrow> joinpath (joinpath (home h) ''AppData'') ''Roaming'')
            ''EvoSuite'') ''agent-os''
      | Darwin \<Rightarrow>
          joinpath (joinpath (joinpath (joinpath (home h) ''Library'')
            ''Application Support'') ''EvoSuite'') ''agent-os''
      | Other \<Rightarrow>
          joinpath (joinpath (joinpath (home h) ''.config'') ''evosuite'') ''agent-os'')"

subsection \<open>\<^verbatim>\<open>_load_file\<close> and \<^verbatim>\<open>_collect_layer_config\<close>\<close>

definition CONFIG_FILENAMES :: "string list" where
  "CONFIG_FILENAMES = [''config.yaml'', ''config.yml'', ''config.json'']"

definition error_layer :: "path \<Rightarrow> string \<Rightarrow> json" where
  "error_layer p exc = JDict [(''_error'', JStr (''Failed loading '' @ path_name p @ '': '' @ exc))]"

definition load_file :: "host \<Rightarrow> path \<Rightarrow> json" where
  "load_file h p =
     (if \<not> path_exists h p then JDict []
      else if (suffix p = ''.yaml'' \<or> suffix p = ''.yml'') \<and> yaml_safe_load h \<noteq> None then
        (case read_text h p of
           Inl exc \<Rightarrow> error_layer p exc
         | Inr txt \<Rightarrow>
             (case yaml_safe_load h of
                None \<Rightarrow> JDict []
              | Some safe_load \<Rightarrow>
                  (case safe_load txt of
                     Inl exc \<Rightarrow> error_layer p exc
                   | Inr v \<Rightarrow> if truthy v then v else JDict [])))
      else if suffix p = ''.json'' then
        (case read_text h p of
           Inl exc \<Rightarrow> error_layer p exc
         | Inr txt \<Rightarrow>
             (case json_loads h txt of
                Inl exc \<Rightarrow> error_layer p exc
              | Inr v \<Rightarrow> v))
      else JDict [])"

fun first_candidate :: "host \<Rightarrow> path \<Rightarrow> string list \<Rightarrow> json" where
  "first_candidate h dir_path [] = JDict []"
| "first_candidate h dir_path (name # names) =
     (if path_exists h (joinpath dir_path name) then load_file h (joinpath dir_path name)
      else first_candidate h dir_path names)"

definition collect_layer_config :: "host \<Rightarrow> path \<Rightarrow> json" where
  "collect_layer_config h dir_path = first_candidate h dir_path CONFIG_FILENAMES"

subsection \<open>\<^verbatim>\<open>_env_overrides\<close>\<close>

definition prefix :: string where
  "prefix = ''EVOSUITE_AGENT_OS_''"

definition coerce :: "host \<Rightarrow> string \<Rightarrow> error + json" where
  "coerce h v =
     (if isdigit v then (case py_int v of Inl e \<Rightarrow> Inl e | Inr i \<Rightarrow> Inr (JInt i))
      else if lower v = ''true'' \<or> lower v = ''false'' then Inr (JBool (lower v = ''true''))
      else (case json_loads h v of Inl exc \<Rightarrow> Inr (JStr v) | Inr parsed \<Rightarrow> Inr parsed))"

definition setdefault :: "(string \<times> json) list \<Rightarrow> string \<Rightarrow> json" where
  "setdefault d p = (case map_of d p of None \<Rightarrow> JDict [] | Some t \<Rightarrow> t)"

text \<open>
  One variable: walk \<^verbatim>\<open>parts[:-1]\<close> with \<^verbatim>\<open>setdefault\<close> (an \<^verbatim>\<open>AttributeError\<close> when
  the target is no mapping), then coerce the value (which may raise), then store the leaf
  (a \<^verbatim>\<open>TypeError\<close> when the target is no mapping). The result is the target after the
  mutation.
\<close>

fun assign :: "json \<Rightarrow> string list \<Rightarrow> string \<Rightarrow> error + json \<Rightarrow> error + json" where
  "assign target [] leaf coerced =
     (case coerced of
        Inl e \<Rightarrow> Inl e
      | Inr c \<Rightarrow>
          if is_dict target then Inr (JDict (AList.update leaf c (items target)))
          else Inl TypeError)"
| "assign target (p # ps) leaf coerced =
     (if is_dict target then
        (case assign (setdefault (items target) p) ps leaf coerced of
           Inl e \<Rightarrow> Inl e
         | Inr t \<Rightarrow> Inr (JDict (AList.update p t (items target))))
      else Inl AttributeError)"

fun env_loop :: "host \<Rightarrow> json \<Rightarrow> (string \<times> string) list \<Rightarrow> error + json" where
  "env_loop h overrides [] = Inr overrides"
| "env_loop h overrides ((key, v) # rest) =
     (if \<not> startswith key prefix then env_loop h overrides rest
      else
        (let parts = split (lower (drop (length prefix) key)) in
         case assign overrides (butlast parts) (last parts) (coerce h v) of
           Inl e \<Rightarrow> Inl e
         | Inr overrides' \<Rightarrow> env_loop h overrides' rest))"

definition env_overrides :: "host \<Rightarrow> error + json" where
  "env_overrides h = env_loop h (JDict []) (environ h)"

subsection \<open>\<^verbatim>\<open>load_agent_os_config\<close>\<close>

definition provenance_key :: string where
  "provenance_key = ''_provenance''"

text \<open>
  The block the entry point repeats for each layer:
  \<^verbatim>\<open>if cfg: _deep_merge(merged, cfg); merged["_provenance"].append(ident)\<close>.
  \<^verbatim>\<open>incoming.items()\<close> raises \<^verbatim>\<open>AttributeError\<close> on a value that is no mapping, and
  so does \<^verbatim>\<open>.append\<close> on a value that is no list.
\<close>

definition merge_layer ::
  "(string \<times> json) list \<Rightarrow> json \<Rightarrow> string \<Rightarrow> error + (string \<times> json) list" where
  "merge_layer merged cfg ident =
     (if \<not> truthy cfg then Inr merged
      else if \<not> is_dict cfg then Inl AttributeError
      else
        (let merged' = deep_merge merged (items cfg) in
         case map_of merged' provenance_key of
           None \<Rightarrow> Inl KeyError
         | Some p \<Rightarrow>
             if is_list p
             then Inr (AList.update provenance_key (JList (elems p @ [JStr ident])) merged')
             else Inl AttributeError))"

definition pkg_defaults_dir :: "host \<Rightarrow> path" where
  "pkg_defaults_dir h = joinpath (package_dir h) ''defaults''"

definition ws_dir :: "path \<Rightarrow> path" where
  "ws_dir workspace_root = joinpath workspace_root ''.agent-os''"

definition load_agent_os_config :: "host \<Rightarrow> path \<Rightarrow> error + json" where
  "load_agent_os_config h workspace_root =
     bind (merge_layer [(provenance_key, JList [])]
             (collect_layer_config h (pkg_defaults_dir h)) ''package'') (\<lambda>m1.
     bind (merge_layer m1
             (collect_layer_config h (platform_user_config_root h))
             (platform_user_config_root h)) (\<lambda>m2.
     bind (merge_layer m2
             (collect_layer_config h (ws_dir workspace_root)) (ws_dir workspace_root)) (\<lambda>m3.
     bind (env_overrides h) (\<lambda>env_cfg.
     bind (merge_layer m3 env_cfg ''env'') (\<lambda>m4.
     Inr (JDict m4))))))"

subsection \<open>Well-formed values and the rules of the specification\<close>

text \<open>A Python \<^verbatim>\<open>dict\<close> has no key twice: the invariant of the representation.\<close>

fun wf_json :: "json \<Rightarrow> bool" where
  "wf_json (JList xs) = list_all wf_json xs"
| "wf_json (JDict d) = (distinct (map fst d) \<and> list_all (\<lambda>kv. wf_json (snd kv)) d)"
| "wf_json _ = True"

text \<open>
  The four rules of the merge for one key, in the specification's words: an absent key
  takes the incoming value, two mappings recurse, two sequences append-unique, anything
  else is replaced.
\<close>

definition merge_value :: "json option \<Rightarrow> json \<Rightarrow> json" where
  "merge_value ob v =
     (case ob of
        None \<Rightarrow> v
      | Some b \<Rightarrow>
          if is_dict b \<and> is_dict v then JDict (deep_merge (items b) (items v))
          else if is_list b \<and> is_list v then JList (extend_unique (elems b) (elems v))
          else v)"

text \<open>
  The incoming elements that the specification says are appended: the element at
  position \<open>i\<close> is new when its encoding is not the encoding of an element of the base
  list or of an earlier incoming element.
\<close>

definition new_items :: "json list \<Rightarrow> json list \<Rightarrow> json list" where
  "new_items bl vl =
     map (\<lambda>i. vl ! i)
       (filter (\<lambda>i. json_dumps (vl ! i) \<notin> set (map json_dumps (bl @ take i vl)))
          [0..<length vl])"








text \<open>A layer that is empty, or a mapping without the reserved key.\<close>

definition unreserved :: "json \<Rightarrow> bool" where
  "unreserved cfg =
     (\<not> truthy cfg \<or> (is_dict cfg \<and> map_of (items cfg) provenance_key = None))"

subsection \<open>Example hosts\<close>

text \<open>
  A host given by tables: the files with their text, what the parsers return on the
  texts in use (any other text is a parse error), and the environment.
\<close>

definition table_host ::
  "(path \<times> string) list \<Rightarrow> (string \<times> json) list \<Rightarrow> (string \<times> string) list \<Rightarrow> host" where
  "table_host files parsed env =
     \<lparr>path_exists = (\<lambda>p. map_of files p \<noteq> None),
      read_text = (\<lambda>p. case map_of files p of
                          None \<Rightarrow> Inl ''No such file or directory''
                        | Some t \<Rightarrow> Inr t),
      yaml_safe_load = Some (\<lambda>t. case map_of parsed t of
                                     None \<Rightarrow> Inl ''could not parse''
                                   | Some v \<Rightarrow> Inr v),
      json_loads = (\<lambda>t. case map_of parsed t of
                           None \<Rightarrow> Inl ''Expecting value''
                         | Some v \<Rightarrow> Inr v),
      environ = env,
      os_platform = Other,
      home = ''/home/u'',
      package_dir = ''/pkg''\<rparr>"

text \<open>
  Packaged defaults and a workspace file that both set the top-level keys \<open>level\<close> and
  \<open>tags\<close>, no user file, and one variable under the prefix.
\<close>

definition scenario_host :: host where
  "scenario_host = table_host
     [(''/pkg/defaults/config.yaml'', ''{level: INFO, tags: [a]}''),
      (''ws/.agent-os/config.yaml'', ''{level: DEBUG, tags: [b]}'')]
     [(''{level: INFO, tags: [a]}'',
         JDict [(''level'', JStr ''INFO''), (''tags'', JList [JStr ''a''])]),
      (''{level: DEBUG, tags: [b]}'',
         JDict [(''level'', JStr ''DEBUG''), (''tags'', JList [JStr ''b''])])]
     [(''HOME'', ''/home/u''), (''EVOSUITE_AGENT_OS_LEVEL'', ''TRACE'')]"




section \<open>Properties\<close>

subsection \<open>Auxiliary facts about the merge\<close>

lemma update_absent: "map_of al k = None \<Longrightarrow> AList.update k v al = al @ [(k, v)]"
  by (induction al) (auto split: if_splits)

lemma deep_merge_Cons:
  "deep_merge base ((k, v) # rest) =
     deep_merge (AList.update k (merge_value (map_of base k) v) base) rest"
  by (simp add: merge_value_def update_absent split: option.splits)

lemma deep_merge_other_key:
  "k \<notin> fst ` set incoming \<Longrightarrow> map_of (deep_merge base incoming) k = map_of base k"
proof (induction incoming arbitrary: base)
  case Nil
  then show ?case by simp
next
  case (Cons kv incoming)
  obtain k' v' where kv: "kv = (k', v')" by (cases kv)
  with Cons.prems have "k \<noteq> k'" and "k \<notin> fst ` set incoming" by auto
  then show ?case
    unfolding kv deep_merge_Cons by (simp add: Cons.IH update_conv')
qed

lemma deep_merge_key:
  "distinct (map fst incoming) \<Longrightarrow> map_of incoming k = Some v \<Longrightarrow>
   map_of (deep_merge base incoming) k = Some (merge_value (map_of base k) v)"
proof (induction incoming arbitrary: base)
  case Nil
  then show ?case by simp
next
  case (Cons kv incoming)
  obtain k' v' where kv: "kv = (k', v')" by (cases kv)
  show ?case
  proof (cases "k = k'")
    case True
    with Cons.prems kv have "v = v'" and "k \<notin> fst ` set incoming" by auto
    then show ?thesis
      unfolding kv deep_merge_Cons using True by (simp add: deep_merge_other_key update_conv')
  next
    case False
    with Cons.prems kv have "distinct (map fst incoming)" and "map_of incoming k = Some v"
      by auto
    then show ?thesis
      unfolding kv deep_merge_Cons using False by (simp add: Cons.IH update_conv')
  qed
qed

lemma merge_value_None: "merge_value None v = v"
  by (simp add: merge_value_def)

lemma merge_value_dicts:
  "is_dict b \<Longrightarrow> is_dict v \<Longrightarrow>
   merge_value (Some b) v = JDict (deep_merge (items b) (items v))"
  by (simp add: merge_value_def)

lemma merge_value_lists:
  "is_list b \<Longrightarrow> is_list v \<Longrightarrow>
   merge_value (Some b) v = JList (extend_unique (elems b) (elems v))"
  by (cases b; cases v) (simp_all add: merge_value_def)

lemma merge_value_replace:
  "\<not> (is_dict b \<and> is_dict v) \<Longrightarrow> \<not> (is_list b \<and> is_list v) \<Longrightarrow>
   merge_value (Some b) v = v"
  by (auto simp: merge_value_def)


lemma append_new_eq:
  "append_new bs (set (map json_dumps bs)) vl = bs @ new_items bs vl"
proof (induction vl arbitrary: bs)
  case Nil
  then show ?case by (simp add: new_items_def)
next
  case (Cons x xs)
  have shift: "new_items bs (x # xs) =
      (if json_dumps x \<notin> set (map json_dumps bs) then [x] else []) @
      map (\<lambda>i. xs ! i)
        (filter (\<lambda>i. json_dumps (xs ! i) \<notin> set (map json_dumps (bs @ x # take i xs)))
           [0..<length xs])"
    unfolding new_items_def
    by (simp add: upt_conv_Cons del: upt_Suc) (simp add: map_Suc_upt [symmetric] filter_map comp_def conj_ac del: upt_Suc)
  show ?case
  proof (cases "json_dumps x \<in> set (map json_dumps bs)")
    case True
    then have "\<And>i. set (map json_dumps (bs @ x # take i xs)) = set (map json_dumps (bs @ take i xs))"
      by auto
    then have "new_items bs (x # xs) = new_items bs xs"
      using True by (subst shift) (simp add: new_items_def)
    with True Cons.IH [of bs] show ?thesis by simp
  next
    case False
    have "\<And>i. set (map json_dumps (bs @ x # take i xs)) = set (map json_dumps ((bs @ [x]) @ take i xs))"
      by auto
    then have "new_items bs (x # xs) = x # new_items (bs @ [x]) xs"
      using False by (subst shift) (simp add: new_items_def)
    with False Cons.IH [of "bs @ [x]"] show ?thesis by simp
  qed
qed

lemma new_items_absorbed:
  "set (map json_dumps vl) \<subseteq> set (map json_dumps bl) \<Longrightarrow> new_items bl vl = []"
  unfolding new_items_def by (auto simp: filter_empty_conv)

lemma extend_unique_eq: "extend_unique bl vl = bl @ new_items bl vl"
  unfolding extend_unique_def by (rule append_new_eq)

lemma extend_unique_absorbed:
  "set (map json_dumps vl) \<subseteq> set (map json_dumps bl) \<Longrightarrow> extend_unique bl vl = bl"
  by (simp add: extend_unique_eq new_items_absorbed)

lemma append_new_encodings:
  "json_dumps ` set (append_new bs (json_dumps ` set bs) vl) =
     json_dumps ` set bs \<union> json_dumps ` set vl"
proof (induction vl arbitrary: bs)
  case Nil
  then show ?case by simp
next
  case (Cons x xs)
  show ?case
  proof (cases "json_dumps x \<in> json_dumps ` set bs")
    case True
    with Cons.IH [of bs] show ?thesis by auto
  next
    case False
    have "json_dumps ` set (bs @ [x]) = insert (json_dumps x) (json_dumps ` set bs)"
      by simp
    with False Cons.IH [of "bs @ [x]"] show ?thesis by (auto simp: Let_def)
  qed
qed

lemma extend_unique_encodings:
  "json_dumps ` set (extend_unique bl vl) = json_dumps ` set bl \<union> json_dumps ` set vl"
  by (simp add: extend_unique_def append_new_encodings)

lemma extend_unique_twice: "extend_unique (extend_unique bl vl) vl = extend_unique bl vl"
  by (rule extend_unique_absorbed) (simp add: extend_unique_encodings)

lemma deep_merge_absorbed:
  "(\<And>k v. (k, v) \<in> set incoming \<Longrightarrow>
      \<exists>r. map_of base k = Some r \<and> merge_value (Some r) v = r) \<Longrightarrow>
   deep_merge base incoming = base"
proof (induction incoming)
  case Nil
  then show ?case by simp
next
  case (Cons kv incoming)
  obtain k v where kv: "kv = (k, v)" by (cases kv)
  from Cons.prems [of k v] kv obtain r where r: "map_of base k = Some r" "merge_value (Some r) v = r"
    by auto
  have "deep_merge base (kv # incoming) = deep_merge base incoming"
    unfolding kv deep_merge_Cons using r by (simp add: update_triv)
  also have "\<dots> = base"
    by (rule Cons.IH) (use Cons.prems in auto)
  finally show ?case .
qed

lemma merge_stable:
  "wf_json v \<Longrightarrow>
     merge_value (Some v) v = v \<and>
     (\<forall>base. deep_merge (deep_merge base (items v)) (items v) = deep_merge base (items v))"
proof (induction v rule: json.induct)
  case (JDict d)
  from JDict.prems have dist: "distinct (map fst d)" by simp
  have wf: "wf_json w" if "(k, w) \<in> set d" for k w
    using that JDict.prems by (auto simp: list_all_iff)
  have IH: "merge_value (Some w) w = w"
      "deep_merge (deep_merge base (items w)) (items w) = deep_merge base (items w)"
    if "(k, w) \<in> set d" for k w base
    using JDict.IH [of "(k, w)" w] that wf [OF that] by auto
  have restable: "merge_value (Some (merge_value ob w)) w = merge_value ob w"
    if mem: "(k, w) \<in> set d" for k w ob
  proof (cases ob)
    case None
    then show ?thesis by (simp add: merge_value_None IH(1) [OF mem])
  next
    case (Some b)
    show ?thesis
    proof (cases "is_dict b \<and> is_dict w")
      case True
      then show ?thesis using Some by (simp add: merge_value_dicts IH(2) [OF mem])
    next
      case nd: False
      show ?thesis
      proof (cases "is_list b \<and> is_list w")
        case True
        then show ?thesis using Some by (simp add: merge_value_lists extend_unique_twice)
      next
        case False
        from merge_value_replace [OF nd False] Some have "merge_value ob w = w" by simp
        with IH(1) [OF mem] show ?thesis by simp
      qed
    qed
  qed
  have self: "deep_merge d d = d"
  proof (rule deep_merge_absorbed)
    fix k w assume mem: "(k, w) \<in> set d"
    with dist have "map_of d k = Some w" by simp
    with IH(1) [OF mem] show "\<exists>r. map_of d k = Some r \<and> merge_value (Some r) w = r" by simp
  qed
  have twice: "deep_merge (deep_merge base d) d = deep_merge base d" for base
  proof (rule deep_merge_absorbed)
    fix k w assume mem: "(k, w) \<in> set d"
    with dist have "map_of d k = Some w" by simp
    from deep_merge_key [OF dist this]
    have "map_of (deep_merge base d) k = Some (merge_value (map_of base k) w)" .
    with restable [OF mem]
    show "\<exists>r. map_of (deep_merge base d) k = Some r \<and> merge_value (Some r) w = r" by simp
  qed
  from self twice show ?case by (simp add: merge_value_dicts)
qed (simp_all add: merge_value_replace merge_value_lists extend_unique_absorbed)

lemma wf_json_distinct: "wf_json cfg \<Longrightarrow> distinct (map fst (items cfg))"
  by (cases cfg) simp_all

subsection \<open>Auxiliary facts about the environment and the layers\<close>

lemma env_loop_no_prefix:
  "list_all (\<lambda>kv. \<not> startswith (fst kv) prefix) env \<Longrightarrow> env_loop h overrides env = Inr overrides"
  by (induction env arbitrary: overrides) auto

lemma assign_distinct:
  "assign target ps leaf coerced = Inr t \<Longrightarrow> distinct (map fst (items target)) \<Longrightarrow>
   distinct (map fst (items t))"
  by (cases ps) (auto simp: distinct_update split: sum.splits if_splits)

lemma env_loop_distinct:
  "env_loop h overrides env = Inr e \<Longrightarrow> distinct (map fst (items overrides)) \<Longrightarrow>
   distinct (map fst (items e))"
proof (induction env arbitrary: overrides)
  case Nil
  then show ?case by simp
next
  case (Cons kv env)
  obtain key v where kv: "kv = (key, v)" by (cases kv)
  show ?case
  proof (cases "startswith key prefix")
    case False
    with Cons kv show ?thesis by simp
  next
    case True
    with Cons.prems(1) kv obtain o' where
      a: "assign overrides (butlast (split (lower (drop (length prefix) key))))
            (last (split (lower (drop (length prefix) key)))) (coerce h v) = Inr o'"
      and l: "env_loop h o' env = Inr e"
      by (auto simp: Let_def split: sum.splits)
    show ?thesis
      by (rule Cons.IH [OF l assign_distinct [OF a Cons.prems(2)]])
  qed
qed

lemma env_overrides_distinct: "env_overrides h = Inr e \<Longrightarrow> distinct (map fst (items e))"
  unfolding env_overrides_def by (erule env_loop_distinct) simp

lemma coerce_raises_only_on_digits:
  "coerce h v = Inl e \<Longrightarrow> e = ValueError \<and> isdigit v \<and> \<not> list_all isdecimal_char v"
  by (auto simp: coerce_def py_int_def isdigit_def split: if_splits sum.splits)

lemma merge_layer_falsy: "\<not> truthy cfg \<Longrightarrow> merge_layer m cfg i = Inr m"
  by (simp add: merge_layer_def)

lemma merge_layer_Inr:
  assumes "merge_layer m cfg i = Inr m'" and "truthy cfg"
  shows "is_dict cfg \<and>
         (\<exists>ps. map_of (deep_merge m (items cfg)) provenance_key = Some (JList ps) \<and>
               m' = AList.update provenance_key (JList (ps @ [JStr i])) (deep_merge m (items cfg)))"
proof -
  from assms have d: "is_dict cfg"
    by (auto simp: merge_layer_def split: if_splits)
  from assms d obtain p where p: "map_of (deep_merge m (items cfg)) provenance_key = Some p"
    "is_list p"
    "m' = AList.update provenance_key (JList (elems p @ [JStr i])) (deep_merge m (items cfg))"
    by (auto simp: merge_layer_def Let_def split: if_splits option.splits)
  from p(2) obtain ps where "p = JList ps" by (cases p) simp_all
  with p d show ?thesis by simp
qed










lemma merge_layer_unreserved:
  assumes u: "unreserved cfg" and p: "map_of m provenance_key = Some (JList ps)"
  shows "\<exists>m'. merge_layer m cfg i = Inr m' \<and>
              map_of m' provenance_key = Some (JList (ps @ (if truthy cfg then [JStr i] else [])))"
proof (cases "truthy cfg")
  case False
  with p show ?thesis by (simp add: merge_layer_falsy)
next
  case True
  with u have d: "is_dict cfg" and n: "map_of (items cfg) provenance_key = None"
    by (auto simp: unreserved_def)
  from n have "provenance_key \<notin> fst ` set (items cfg)"
    by (simp add: map_of_eq_None_iff)
  then have "map_of (deep_merge m (items cfg)) provenance_key = map_of m provenance_key"
    by (rule deep_merge_other_key)
  with p True d show ?thesis
    by (simp add: merge_layer_def update_conv')
qed

lemma merge_layer_keeps_identifiers:
  assumes ret: "merge_layer m cfg i = Inr m'"
    and n: "map_of (items cfg) provenance_key = None"
    and p: "map_of m provenance_key = Some (JList ps)"
  shows "\<exists>qs. map_of m' provenance_key = Some (JList qs) \<and> set qs \<subseteq> insert (JStr i) (set ps)"
proof (cases "truthy cfg")
  case False
  with ret p show ?thesis by (auto simp: merge_layer_falsy)
next
  case True
  from merge_layer_Inr [OF ret True] have "is_dict cfg" by simp
  with True n have "unreserved cfg" by (simp add: unreserved_def)
  from merge_layer_unreserved [OF this p, of i] ret True show ?thesis by auto
qed

lemma load_Inr:
  assumes "load_agent_os_config h workspace_root = Inr res"
  obtains m1 m2 m3 env_cfg m4 where
    "merge_layer [(provenance_key, JList [])]
       (collect_layer_config h (pkg_defaults_dir h)) ''package'' = Inr m1"
    "merge_layer m1 (collect_layer_config h (platform_user_config_root h))
       (platform_user_config_root h) = Inr m2"
    "merge_layer m2 (collect_layer_config h (ws_dir workspace_root)) (ws_dir workspace_root) = Inr m3"
    "env_overrides h = Inr env_cfg"
    "merge_layer m3 env_cfg ''env'' = Inr m4"
    "res = JDict m4"
  using assms unfolding load_agent_os_config_def bind_def
  by (auto split: sum.splits)

lemma scenario_result:
  "load_agent_os_config scenario_host ''ws'' =
     Inr (JDict [(''_provenance'', JList [JStr ''package'', JStr ''ws/.agent-os'', JStr ''env'']),
                 (''level'', JStr ''TRACE''),
                 (''tags'', JList [JStr ''a'', JStr ''b''])])"
  by code_simp

lemma scenario_env: "env_overrides scenario_host = Inr (JDict [(''level'', JStr ''TRACE'')])"
  by code_simp

lemma scenario_pkg:
  "collect_layer_config scenario_host (pkg_defaults_dir scenario_host) =
     JDict [(''level'', JStr ''INFO''), (''tags'', JList [JStr ''a''])]"
  by code_simp

lemma scenario_usr:
  "collect_layer_config scenario_host (platform_user_config_root scenario_host) = JDict []"
  by code_simp

lemma scenario_ws:
  "collect_layer_config scenario_host (ws_dir ''ws'') =
     JDict [(''level'', JStr ''DEBUG''), (''tags'', JList [JStr ''b''])]"
  by code_simp






subsection \<open>Precedence\<close>




subsection \<open>Non-mapping file content\<close>

text \<open>
  Claim C2 (never raises). The claim asks that \<open>load_agent_os_config\<close> returns a mapping
  for every filesystem state, also when a configuration file holds something that is not
  a mapping. \<open>load_file\<close> returns whatever \<^verbatim>\<open>json.loads\<close> gives, and a non-empty list
  reaches \<^verbatim>\<open>incoming.items()\<close>: with a workspace file \<^verbatim>\<open>config.json\<close> whose text is
  \<^verbatim>\<open>[1]\<close>, the call ends in an \<^verbatim>\<open>AttributeError\<close>.
\<close>

theorem load_non_mapping_file_raises:
  "load_agent_os_config
     (table_host [(''ws/.agent-os/config.json'', ''[1]'')] [(''[1]'', JList [JInt 1])] [])
     ''ws'' = Inl AttributeError"
  by code_simp

text \<open>
  A file that the parser rejects does degrade to an error-marked layer, as the
  specification says.
\<close>

lemma load_file_parse_error:
  assumes "path_exists h p" and "suffix p = ''.json''"
    and "read_text h p = Inr txt" and "json_loads h txt = Inl exc"
  shows "load_file h p = JDict [(''_error'', JStr (''Failed loading '' @ path_name p @ '': '' @ exc))]"
  using assms by (simp add: load_file_def error_layer_def)

subsection \<open>Environment variables\<close>

text \<open>
  Claim C3 (collision of a mapping and a leaf). With \<^verbatim>\<open>A__B\<close> processed before \<^verbatim>\<open>A\<close>
  the leaf written last replaces the mapping. In the other order the value stored for
  \<^verbatim>\<open>A\<close> is the integer 1, \<^verbatim>\<open>setdefault\<close> returns it, and storing \<^verbatim>\<open>b\<close> into it
  raises a \<^verbatim>\<open>TypeError\<close>: the last-processed variable does not win, no mapping is
  returned.
\<close>

theorem env_leaf_then_mapping_raises:
  "env_overrides (table_host [] []
      [(''EVOSUITE_AGENT_OS_A__B'', ''2''), (''EVOSUITE_AGENT_OS_A'', ''1'')]) =
     Inr (JDict [(''a'', JInt 1)]) \<and>
   env_overrides (table_host [] []
      [(''EVOSUITE_AGENT_OS_A'', ''1''), (''EVOSUITE_AGENT_OS_A__B'', ''2'')]) =
     Inl TypeError"
  by code_simp

subsection \<open>Provenance\<close>




subsection \<open>The reserved key when every layer is empty\<close>

text \<open>
  Claim C5, as stated: when every layer is empty the returned mapping does not contain
  the reserved provenance key. It fails on the host with no file and no variable: the
  accumulator starts as \<^verbatim>\<open>{"_provenance": []}\<close> and is returned as it is.
\<close>

theorem empty_layers_keep_provenance_key:
  "collect_layer_config (table_host [] [] []) (pkg_defaults_dir (table_host [] [] [])) = JDict [] \<and>
   collect_layer_config (table_host [] [] []) (platform_user_config_root (table_host [] [] [])) = JDict [] \<and>
   collect_layer_config (table_host [] [] []) (ws_dir ''ws'') = JDict [] \<and>
   env_overrides (table_host [] [] []) = Inr (JDict []) \<and>
   load_agent_os_config (table_host [] [] []) ''ws'' = Inr (JDict [(''_provenance'', JList [])])"
  by code_simp

text \<open>
  Claim C5, amended: when the three directories load as empty and no environment
  variable carries the prefix, the returned mapping is exactly the reserved key bound to
  the empty list.
\<close>

theorem load_all_layers_empty:
  assumes "\<not> truthy (collect_layer_config h (pkg_defaults_dir h))"
    and "\<not> truthy (collect_layer_config h (platform_user_config_root h))"
    and "\<not> truthy (collect_layer_config h (ws_dir workspace_root))"
    and "list_all (\<lambda>kv. \<not> startswith (fst kv) prefix) (environ h)"
  shows "load_agent_os_config h workspace_root = Inr (JDict [(provenance_key, JList [])])"
  using assms
  by (simp add: load_agent_os_config_def bind_def merge_layer_def env_overrides_def
        env_loop_no_prefix)

theorem load_all_layers_empty_witness:
  "load_agent_os_config (table_host [] [] [(''PATH'', ''/bin'')]) ''ws'' =
     Inr (JDict [(provenance_key, JList [])])"
proof (rule load_all_layers_empty)
  show "\<not> truthy (collect_layer_config (table_host [] [] [(''PATH'', ''/bin'')])
              (pkg_defaults_dir (table_host [] [] [(''PATH'', ''/bin'')])))"
    by code_simp
  show "\<not> truthy (collect_layer_config (table_host [] [] [(''PATH'', ''/bin'')])
              (platform_user_config_root (table_host [] [] [(''PATH'', ''/bin'')])))"
    by code_simp
  show "\<not> truthy (collect_layer_config (table_host [] [] [(''PATH'', ''/bin'')]) (ws_dir ''ws''))"
    by code_simp
  show "list_all (\<lambda>kv. \<not> startswith (fst kv) prefix) (environ (table_host [] [] [(''PATH'', ''/bin'')]))"
    by code_simp
qed

subsection \<open>The reserved key in a layer\<close>

text \<open>
  Claim C6, as stated: the provenance value is never combined with the content of a
  layer, even when a layer contains the reserved key. It fails for a workspace file
  \<^verbatim>\<open>_provenance: [injected]\<close>: the two lists are merged by the list rule, and the
  returned provenance starts with the file's element.
\<close>

theorem file_reserved_key_merged_into_provenance:
  "collect_layer_config
     (table_host [(''ws/.agent-os/config.yaml'', ''_provenance: [injected]'')]
        [(''_provenance: [injected]'', JDict [(''_provenance'', JList [JStr ''injected''])])] [])
     (ws_dir ''ws'') = JDict [(''_provenance'', JList [JStr ''injected''])] \<and>
   load_agent_os_config
     (table_host [(''ws/.agent-os/config.yaml'', ''_provenance: [injected]'')]
        [(''_provenance: [injected]'', JDict [(''_provenance'', JList [JStr ''injected''])])] [])
     ''ws'' = Inr (JDict [(''_provenance'', JList [JStr ''injected'', JStr ''ws/.agent-os''])])"
  by code_simp

text \<open>
  Claim C6, amended: in every run that returns and in which no loaded layer contains
  the reserved key, the returned provenance value is a list of engine-written layer
  identifiers only.
\<close>

theorem provenance_only_identifiers:
  assumes ret: "load_agent_os_config h workspace_root = Inr res"
    and env: "env_overrides h = Inr env_cfg"
    and n1: "map_of (items (collect_layer_config h (pkg_defaults_dir h))) provenance_key = None"
    and n2: "map_of (items (collect_layer_config h (platform_user_config_root h))) provenance_key = None"
    and n3: "map_of (items (collect_layer_config h (ws_dir workspace_root))) provenance_key = None"
    and n4: "map_of (items env_cfg) provenance_key = None"
  shows "\<exists>ps. map_of (items res) provenance_key = Some (JList ps) \<and>
              set ps \<subseteq> {JStr ''package'', JStr (platform_user_config_root h),
                          JStr (ws_dir workspace_root), JStr ''env''}"
proof -
  from ret obtain m1 m2 m3 e m4 where
    s1: "merge_layer [(provenance_key, JList [])]
       (collect_layer_config h (pkg_defaults_dir h)) ''package'' = Inr m1"
    and s2: "merge_layer m1 (collect_layer_config h (platform_user_config_root h))
       (platform_user_config_root h) = Inr m2"
    and s3: "merge_layer m2 (collect_layer_config h (ws_dir workspace_root))
       (ws_dir workspace_root) = Inr m3"
    and e: "env_overrides h = Inr e"
    and s4: "merge_layer m3 e ''env'' = Inr m4"
    and res: "res = JDict m4"
    by (rule load_Inr)
  from e env have ee: "e = env_cfg" by simp
  have p0: "map_of [(provenance_key, JList [])] provenance_key = Some (JList [])"
    by simp
  from merge_layer_keeps_identifiers [OF s1 n1 p0] obtain q1 where
    q1: "map_of m1 provenance_key = Some (JList q1)" "set q1 \<subseteq> {JStr ''package''}"
    by auto
  from merge_layer_keeps_identifiers [OF s2 n2 q1(1)] q1(2) obtain q2 where
    q2: "map_of m2 provenance_key = Some (JList q2)"
      "set q2 \<subseteq> {JStr ''package'', JStr (platform_user_config_root h)}"
    by auto
  from merge_layer_keeps_identifiers [OF s3 n3 q2(1)] q2(2) obtain q3 where
    q3: "map_of m3 provenance_key = Some (JList q3)"
      "set q3 \<subseteq> {JStr ''package'', JStr (platform_user_config_root h), JStr (ws_dir workspace_root)}"
    by auto
  from merge_layer_keeps_identifiers [OF s4 [unfolded ee] n4 q3(1)] q3(2) obtain q4 where
    q4: "map_of m4 provenance_key = Some (JList q4)"
      "set q4 \<subseteq> {JStr ''package'', JStr (platform_user_config_root h),
                   JStr (ws_dir workspace_root), JStr ''env''}"
    by auto
  with res show ?thesis by auto
qed

theorem provenance_only_identifiers_witness:
  "\<exists>res ps. load_agent_os_config scenario_host ''ws'' = Inr res \<and>
        map_of (items res) provenance_key = Some (JList ps) \<and>
        set ps \<subseteq> {JStr ''package'', JStr (platform_user_config_root scenario_host),
                    JStr (ws_dir ''ws''), JStr ''env''}"
proof -
  have "map_of (items (collect_layer_config scenario_host (pkg_defaults_dir scenario_host)))
          provenance_key = None"
    by (simp add: scenario_pkg provenance_key_def)
  moreover have "map_of (items (collect_layer_config scenario_host (platform_user_config_root scenario_host)))
          provenance_key = None"
    by (simp add: scenario_usr)
  moreover have "map_of (items (collect_layer_config scenario_host (ws_dir ''ws''))) provenance_key = None"
    by (simp add: scenario_ws provenance_key_def)
  moreover have "map_of (items (JDict [(''level'', JStr ''TRACE'')])) provenance_key = None"
    by (simp add: provenance_key_def)
  ultimately have "\<exists>ps. map_of (items (JDict
      [(''_provenance'', JList [JStr ''package'', JStr ''ws/.agent-os'', JStr ''env'']),
       (''level'', JStr ''TRACE''),
       (''tags'', JList [JStr ''a'', JStr ''b''])])) provenance_key = Some (JList ps) \<and>
        set ps \<subseteq> {JStr ''package'', JStr (platform_user_config_root scenario_host),
                    JStr (ws_dir ''ws''), JStr ''env''}"
    by (rule provenance_only_identifiers [OF scenario_result scenario_env])
  with scenario_result show ?thesis by blast
qed

subsection \<open>Coercion of environment values\<close>

text \<open>
  Claim C7 (coercion of the raw value). The claim's example holds
  (\<open>env_sampling_max_parallel\<close> below), but the chain of fallbacks is not followed for
  every value: the superscript two (U+00B2) passes \<^verbatim>\<open>isdigit\<close>, it is not a decimal
  digit, and \<^verbatim>\<open>int\<close> raises a \<^verbatim>\<open>ValueError\<close> where the claim keeps the string.
\<close>

theorem env_superscript_digit_raises:
  "isdigit [char_of (178::nat)] \<and>
   env_overrides (table_host [] [] [(''EVOSUITE_AGENT_OS_X'', [char_of (178::nat)])]) =
     Inl ValueError"
  by code_simp

lemma env_sampling_max_parallel:
  "env_overrides (table_host [] [] [(''EVOSUITE_AGENT_OS_SAMPLING__MAX_PARALLEL'', ''4'')]) =
     Inr (JDict [(''sampling'', JDict [(''max_parallel'', JInt 4)])])"
  by code_simp

text \<open>
  For every value on which \<^verbatim>\<open>isdigit\<close> and \<^verbatim>\<open>isdecimal\<close> agree, the coercion is the
  chain of fallbacks of the specification and does not raise.
\<close>

lemma coerce_fallback_chain:
  assumes "isdigit v \<longrightarrow> list_all isdecimal_char v"
  shows "coerce h v =
     Inr (if v \<noteq> [] \<and> list_all isdecimal_char v
            then JInt (foldl (\<lambda>a c. 10 * a + (int (code c) - 48)) 0 v)
          else if lower v = ''true'' then JBool True
          else if lower v = ''false'' then JBool False
          else (case json_loads h v of Inl exc \<Rightarrow> JStr v | Inr parsed \<Rightarrow> parsed))"
proof (cases "isdigit v")
  case True
  with assms show ?thesis
    by (simp add: coerce_def py_int_def isdigit_def)
next
  case False
  then have "\<not> (v \<noteq> [] \<and> list_all isdecimal_char v)"
    by (auto simp: isdigit_def isdigit_char_def list_all_iff)
  with False show ?thesis
    by (auto simp: coerce_def split: sum.splits)
qed

subsection \<open>List union\<close>

text \<open>
  Claim C8 (append-unique). When \<open>base\<close> and \<open>incoming\<close> both hold a list under the key
  \<open>k\<close>, the merged list is the base list, unchanged and in place, followed by the
  incoming elements whose canonical encoding was not yet present, in the order of
  \<open>incoming\<close>; when every incoming encoding is already the encoding of a base element,
  the base list is left as it was.
\<close>

theorem deep_merge_list_union:
  assumes "distinct (map fst incoming)"
    and "map_of base k = Some (JList bl)"
    and "map_of incoming k = Some (JList vl)"
  shows "map_of (deep_merge base incoming) k = Some (JList (bl @ new_items bl vl)) \<and>
         (set (map json_dumps vl) \<subseteq> set (map json_dumps bl) \<longrightarrow>
            map_of (deep_merge base incoming) k = Some (JList bl))"
proof -
  have "map_of (deep_merge base incoming) k = Some (merge_value (Some (JList bl)) (JList vl))"
    using deep_merge_key [OF assms(1) assms(3), of base] assms(2) by simp
  then have "map_of (deep_merge base incoming) k = Some (JList (bl @ new_items bl vl))"
    by (simp add: merge_value_lists extend_unique_eq)
  then show ?thesis
    by (simp add: new_items_absorbed)
qed

theorem deep_merge_list_union_witness:
  "map_of (deep_merge [(''tags'', JList [JStr ''a'', JInt 1])]
             [(''name'', JStr ''x''), (''tags'', JList [JStr ''b'', JInt 1, JStr ''b'', JStr ''c''])])
      ''tags'' = Some (JList [JStr ''a'', JInt 1, JStr ''b'', JStr ''c'']) \<and>
   map_of (deep_merge [(''tags'', JList [JStr ''a'', JInt 1])] [(''tags'', JList [JInt 1, JStr ''a''])])
      ''tags'' = Some (JList [JStr ''a'', JInt 1])"
proof -
  have b0: "map_of [(''tags'', JList [JStr ''a'', JInt 1])] ''tags'' = Some (JList [JStr ''a'', JInt 1])"
    by simp
  have d1: "distinct (map fst [(''name'', JStr ''x''),
      (''tags'', JList [JStr ''b'', JInt 1, JStr ''b'', JStr ''c''])])"
    by simp
  have i1: "map_of [(''name'', JStr ''x''),
      (''tags'', JList [JStr ''b'', JInt 1, JStr ''b'', JStr ''c''])] ''tags'' =
      Some (JList [JStr ''b'', JInt 1, JStr ''b'', JStr ''c''])"
    by simp
  have n1: "new_items [JStr ''a'', JInt 1] [JStr ''b'', JInt 1, JStr ''b'', JStr ''c''] =
      [JStr ''b'', JStr ''c'']"
    by code_simp
  have d2: "distinct (map fst [(''tags'', JList [JInt 1, JStr ''a''])])"
    by simp
  have i2: "map_of [(''tags'', JList [JInt 1, JStr ''a''])] ''tags'' = Some (JList [JInt 1, JStr ''a''])"
    by simp
  have s2: "set (map json_dumps [JInt 1, JStr ''a'']) \<subseteq> set (map json_dumps [JStr ''a'', JInt 1])"
    by code_simp
  from deep_merge_list_union [OF d1 b0 i1, THEN conjunct1]
  have a: "map_of (deep_merge [(''tags'', JList [JStr ''a'', JInt 1])]
             [(''name'', JStr ''x''), (''tags'', JList [JStr ''b'', JInt 1, JStr ''b'', JStr ''c''])])
      ''tags'' = Some (JList [JStr ''a'', JInt 1, JStr ''b'', JStr ''c''])"
    by (simp only: n1 append.simps)
  from deep_merge_list_union [OF d2 b0 i2, THEN conjunct2, rule_format, OF s2]
  have b: "map_of (deep_merge [(''tags'', JList [JStr ''a'', JInt 1])] [(''tags'', JList [JInt 1, JStr ''a''])])
      ''tags'' = Some (JList [JStr ''a'', JInt 1])" .
  from a b show ?thesis by (rule conjI)
qed

subsection \<open>Candidate files\<close>

text \<open>
  Claim C9 (first match wins). \<open>collect_layer_config\<close> is \<open>load_file\<close> of the first of
  \<^verbatim>\<open>config.yaml\<close>, \<^verbatim>\<open>config.yml\<close>, \<^verbatim>\<open>config.json\<close> that exists, whatever the later
  candidates are, and the empty mapping when none exists (as under an absent directory).
\<close>

theorem collect_layer_config_first_match:
  "collect_layer_config h d =
     (if path_exists h (joinpath d ''config.yaml'') then load_file h (joinpath d ''config.yaml'')
      else if path_exists h (joinpath d ''config.yml'') then load_file h (joinpath d ''config.yml'')
      else if path_exists h (joinpath d ''config.json'') then load_file h (joinpath d ''config.json'')
      else JDict [])"
  by (simp add: collect_layer_config_def CONFIG_FILENAMES_def)

theorem collect_layer_config_first_match_witness:
  "collect_layer_config
     (table_host [(''ws/.agent-os/config.yml'', ''a: 1''), (''ws/.agent-os/config.json'', ''{}'')]
        [(''a: 1'', JDict [(''a'', JInt 1)]), (''{}'', JDict [])] [])
     ''ws/.agent-os'' = JDict [(''a'', JInt 1)]"
  using collect_layer_config_first_match [of
     "table_host [(''ws/.agent-os/config.yml'', ''a: 1''), (''ws/.agent-os/config.json'', ''{}'')]
        [(''a: 1'', JDict [(''a'', JInt 1)]), (''{}'', JDict [])] []" "''ws/.agent-os''"]
  by (simp add: table_host_def joinpath_def load_file_def suffix_def path_name_def)

subsection \<open>Idempotence\<close>

text \<open>
  Claim C10 (idempotence in the incoming argument). Merging a well-formed \<open>incoming\<close>
  a second time into the result of the first merge changes nothing.
\<close>

theorem deep_merge_idempotent:
  assumes "wf_json (JDict incoming)"
  shows "deep_merge (deep_merge base incoming) incoming = deep_merge base incoming"
  using merge_stable [OF assms] by simp

theorem deep_merge_idempotent_witness:
  "deep_merge
     (deep_merge [(''logging'', JDict [(''level'', JStr ''INFO'')]), (''tags'', JList [JStr ''a''])]
        [(''logging'', JDict [(''level'', JStr ''DEBUG'')]), (''tags'', JList [JStr ''b''])])
     [(''logging'', JDict [(''level'', JStr ''DEBUG'')]), (''tags'', JList [JStr ''b''])] =
   deep_merge [(''logging'', JDict [(''level'', JStr ''INFO'')]), (''tags'', JList [JStr ''a''])]
     [(''logging'', JDict [(''level'', JStr ''DEBUG'')]), (''tags'', JList [JStr ''b''])]"
  by (rule deep_merge_idempotent) simp

end
